theory Spec2Isabelle
  imports
    Complex_Main
    "HOL-Library.Multiset"
    "HOL-Library.Sublist"
    "HOL-Library.Char_ord"
    "HOL-Library.List_Lexorder"
begin

section \<open>Data model\<close>

text \<open>
  The location samples of \<^verbatim>\<open>types/api.ts\<close> (\<^verbatim>\<open>LocationData\<close>); \<^verbatim>\<open>Map.tsx\<close> reads them
  through its structural view \<^verbatim>\<open>LocationItem\<close>, which names a subset of the same fields.
  A JavaScript number is modelled as a real: the arithmetic of the model is exact, that of
  the program rounds to IEEE doubles. An optional field is an \<open>option\<close>.
\<close>

record LocationData =
  timestamp :: string
  latitude :: real
  longitude :: real
  altitude :: real
  horizontal_accuracy_meters :: real
  vertical_accuracy_meters :: real
  speed_mps :: real
  bearing_degrees :: real
  provider :: string
  person :: "string option"

type_synonym LocationItem = LocationData

text \<open>
  \<^verbatim>\<open>ClusterItem\<close>. Record fields are global constants, so the fields \<^verbatim>\<open>locations\<close> and
  \<^verbatim>\<open>person\<close> of a cluster carry the prefix \<open>c_\<close>.
\<close>

record ClusterItem =
  c_locations :: "LocationItem list"
  center :: "real \<times> real"
  c_person :: string

record Coordinate =
  lat :: real
  lng :: real
  coord_person :: "string option"

text \<open>
  \<^verbatim>\<open>LocationResponse\<close>; its fields \<^verbatim>\<open>person\<close>, \<^verbatim>\<open>persons\<close> and \<^verbatim>\<open>locations\<close> carry the prefix
  \<open>r_\<close>. The table \<^verbatim>\<open>person_colors\<close> is a \<^verbatim>\<open>Record<string, string>\<close>: the map holds the
  object's own properties, and a read goes through \<open>property\<close> below.
\<close>

record LocationResponse =
  r_person :: "string option"
  r_persons :: "string list option"
  time_period :: "string option"
  r_locations :: "LocationData list"
  summary :: string
  coordinates :: "Coordinate list option"
  person_colors :: "(string \<rightharpoonup> string) option"

section \<open>Objects read as dictionaries\<close>

text \<open>
  The program reads plain objects by a key: the accumulator \<^verbatim>\<open>{}\<close> of the grouping and the
  parsed table \<^verbatim>\<open>person_colors\<close>. Such a read finds the object's own property, and
  otherwise a property inherited from \<^verbatim>\<open>Object.prototype\<close>. The names below are the
  properties of \<^verbatim>\<open>Object.prototype\<close> in a browser; each holds a function, and \<^verbatim>\<open>__proto__\<close>
  reads as the prototype object itself, so each is truthy, is no string and has no method
  \<^verbatim>\<open>push\<close>.
\<close>

definition objectPrototypeNames :: "string list" where
  "objectPrototypeNames =
     [''constructor'', ''__defineGetter__'', ''__defineSetter__'', ''hasOwnProperty'',
      ''__lookupGetter__'', ''__lookupSetter__'', ''isPrototypeOf'', ''propertyIsEnumerable'',
      ''toString'', ''valueOf'', ''__proto__'', ''toLocaleString'']"

datatype 'a JsProperty = Own 'a | Inherited | Missing

text \<open>\<^verbatim>\<open>obj[key]\<close> for an object with the given own properties.\<close>

definition property :: "(string \<rightharpoonup> 'a) \<Rightarrow> string \<Rightarrow> 'a JsProperty" where
  "property own key =
     (case own key of
        Some v \<Rightarrow> Own v
      | None \<Rightarrow> if key \<in> set objectPrototypeNames then Inherited else Missing)"

datatype JsError = TypeError

text \<open>
  What a function declared to return a string returns at run time: a string,
  \<^verbatim>\<open>undefined\<close>, or the value of the inherited property of a name.
\<close>

datatype JsValue = JsString string | JsUndefined | JsInherited string

definition ofColor :: "string option \<Rightarrow> JsValue" where
  "ofColor c = (case c of Some s \<Rightarrow> JsString s | None \<Rightarrow> JsUndefined)"

section \<open>Clustering\<close>

text \<open>
  \<^verbatim>\<open>p || d\<close> on an optional string: \<^verbatim>\<open>undefined\<close> and the empty string are falsy.
  \<^verbatim>\<open>location.person || 'unknown'\<close> is \<open>personOrUnknown\<close>.
\<close>

definition orElse :: "string option \<Rightarrow> string \<Rightarrow> string" where
  "orElse p d = (case p of None \<Rightarrow> d | Some s \<Rightarrow> if s = [] then d else s)"

definition personOrUnknown :: "string option \<Rightarrow> string" where
  "personOrUnknown p = orElse p ''unknown''"

text \<open>The planar distance computed in the inner loop of \<^verbatim>\<open>clusterLocations\<close>.\<close>

definition distance :: "LocationItem \<Rightarrow> LocationItem \<Rightarrow> real" where
  "distance location otherLocation =
     sqrt (((latitude location - latitude otherLocation) * 111000)\<^sup>2 +
           ((longitude location - longitude otherLocation) * 111000)\<^sup>2)"

text \<open>
  The body of the inner \<^verbatim>\<open>forEach\<close>: the state is the member list of the cluster under
  construction and the set \<^verbatim>\<open>processed\<close> of indices.
\<close>

definition inner_step ::
  "real \<Rightarrow> LocationItem \<Rightarrow> nat \<Rightarrow> string \<Rightarrow> LocationItem list \<times> nat set \<Rightarrow> nat \<times> LocationItem
     \<Rightarrow> LocationItem list \<times> nat set" where
  "inner_step distanceThreshold location index cperson st other =
     (case st of (members, processed) \<Rightarrow>
      case other of (otherIndex, otherLocation) \<Rightarrow>
        if otherIndex = index \<or> otherIndex \<in> processed then (members, processed)
        else if personOrUnknown (person otherLocation) \<noteq> cperson then (members, processed)
        else if distance location otherLocation \<le> distanceThreshold
          then (members @ [otherLocation], insert otherIndex processed)
        else (members, processed))"

text \<open>
  The body of the outer \<^verbatim>\<open>forEach\<close>: the state is the list \<^verbatim>\<open>clusters\<close> and the set
  \<^verbatim>\<open>processed\<close>.
\<close>

definition outer_step ::
  "real \<Rightarrow> LocationItem list \<Rightarrow> ClusterItem list \<times> nat set \<Rightarrow> nat \<times> LocationItem
     \<Rightarrow> ClusterItem list \<times> nat set" where
  "outer_step distanceThreshold locs st cur =
     (case st of (clusters, processed) \<Rightarrow>
      case cur of (index, location) \<Rightarrow>
        if index \<in> processed then (clusters, processed)
        else
          (let cperson = personOrUnknown (person location) in
           case foldl (inner_step distanceThreshold location index cperson)
                  ([location], processed) (List.enumerate 0 locs)
           of (members, processed') \<Rightarrow>
             (clusters @ [\<lparr>c_locations = members,
                           center = (latitude location, longitude location),
                           c_person = cperson\<rparr>],
              insert index processed')))"

definition clusterLocations :: "LocationItem list \<Rightarrow> real \<Rightarrow> ClusterItem list" where
  "clusterLocations locs distanceThreshold =
     fst (foldl (outer_step distanceThreshold locs) ([], {}) (List.enumerate 0 locs))"

text \<open>The call without a threshold takes the default of 50 metres.\<close>

definition clusterLocationsDefault :: "LocationItem list \<Rightarrow> ClusterItem list" where
  "clusterLocationsDefault locs = clusterLocations locs 50"

text \<open>
  The reference algorithm, written from the words of the specification: the first sample
  not yet assigned seeds a cluster centred on it, the later unassigned samples of the same
  person within the threshold of the seed join it, and the scan goes on with the others.
\<close>

definition joins :: "real \<Rightarrow> LocationItem \<Rightarrow> LocationItem \<Rightarrow> bool" where
  "joins thr seed l \<longleftrightarrow>
     personOrUnknown (person l) = personOrUnknown (person seed) \<and> distance seed l \<le> thr"

function greedy_reference :: "real \<Rightarrow> LocationItem list \<Rightarrow> ClusterItem list" where
  "greedy_reference thr [] = []"
| "greedy_reference thr (seed # rest) =
     \<lparr>c_locations = seed # filter (joins thr seed) rest,
      center = (latitude seed, longitude seed),
      c_person = personOrUnknown (person seed)\<rparr>
     # greedy_reference thr (filter (\<lambda>l. \<not> joins thr seed l) rest)"
  by pat_completeness auto
termination
  by (relation "measure (\<lambda>(thr, ls). length ls)") (auto simp: less_Suc_eq_le)

section \<open>Colour assignment\<close>

definition colors :: "string list" where
  "colors = [''#3B82F6'', ''#EF4444'', ''#10B981'', ''#F59E0B'', ''#8B5CF6'',
             ''#EC4899'', ''#06B6D4'', ''#84CC16'', ''#F97316'', ''#6366F1'']"

definition isDigit :: "char \<Rightarrow> bool" where
  "isDigit c \<longleftrightarrow> c \<in> set ''0123456789''"

definition digitValue :: "char \<Rightarrow> int" where
  "digitValue c = int (of_char c) - 48"

text \<open>
  \<^verbatim>\<open>parseInt\<close> on the capture of \<^verbatim>\<open>(\d+)\<close>, a non-empty string of decimal digits. The
  program's number is a double: it equals this integer for values up to \<open>2^53\<close>.
\<close>

definition parseInt :: "string \<Rightarrow> int" where
  "parseInt ds = foldl (\<lambda>acc c. 10 * acc + digitValue c) 0 ds"

text \<open>
  \<^verbatim>\<open>person.match(/person(\d+)/)\<close>: the pattern is not anchored, so the leftmost position
  where \<^verbatim>\<open>person\<close> is followed by a digit matches, and the capture is the longest run of
  digits there. The result is the capture, \<open>None\<close> when nothing matches.
\<close>

fun matchPerson :: "string \<Rightarrow> string option" where
  "matchPerson [] = None"
| "matchPerson (c # cs) =
     (if take 6 (c # cs) = ''person'' \<and> takeWhile isDigit (drop 6 (c # cs)) \<noteq> []
      then Some (takeWhile isDigit (drop 6 (c # cs)))
      else matchPerson cs)"

text \<open>
  The remainder operator \<^verbatim>\<open>%\<close> on integers: the result has the sign of the dividend.
\<close>

definition jsRemainder :: "int \<Rightarrow> int \<Rightarrow> int" where
  "jsRemainder a b = sgn a * (\<bar>a\<bar> mod \<bar>b\<bar>)"

text \<open>Reading an array at an integer index: \<^verbatim>\<open>undefined\<close> (\<open>None\<close>) out of range.\<close>

definition arrayIndex :: "'a list \<Rightarrow> int \<Rightarrow> 'a option" where
  "arrayIndex xs i = (if 0 \<le> i \<and> i < int (length xs) then Some (xs ! nat i) else None)"

definition getPersonColor :: "string option \<Rightarrow> string option" where
  "getPersonColor person' =
     (case person' of
        None \<Rightarrow> Some ''#6B7280''
      | Some p \<Rightarrow>
          if p = [] then Some ''#6B7280''
          else
            (let personIndex = (case matchPerson p of Some ds \<Rightarrow> parseInt ds - 1 | None \<Rightarrow> 0)
             in arrayIndex colors (jsRemainder personIndex (int (length colors)))))"

text \<open>
  \<^verbatim>\<open>getPersonColorFromResponse\<close>: the guard reads \<^verbatim>\<open>locations.person_colors[person]\<close> and
  returns it when it is truthy, so an own non-empty colour is returned, and so is the
  value inherited under a name of \<^verbatim>\<open>Object.prototype\<close> that the table does not hold itself.
\<close>

definition getPersonColorFromResponse ::
  "LocationResponse option \<Rightarrow> string option \<Rightarrow> JsValue" where
  "getPersonColorFromResponse locations' person' =
     (case locations' of
        None \<Rightarrow> ofColor (getPersonColor person')
      | Some res \<Rightarrow>
          (case person_colors res of
             None \<Rightarrow> ofColor (getPersonColor person')
           | Some tbl \<Rightarrow>
               (case person' of
                  None \<Rightarrow> ofColor (getPersonColor person')
                | Some p \<Rightarrow>
                    if p = [] then ofColor (getPersonColor person')
                    else
                      (case property tbl p of
                         Missing \<Rightarrow> ofColor (getPersonColor person')
                       | Inherited \<Rightarrow> JsInherited p
                       | Own c \<Rightarrow>
                           if c = [] then ofColor (getPersonColor person') else JsString c))))"

section \<open>Marker size\<close>

datatype MarkerSize = Small | Medium | Large

text \<open>\<^verbatim>\<open>Array.prototype.indexOf\<close>: the first index of the element, \<open>-1\<close> when it is absent.\<close>

fun indexOf :: "'a list \<Rightarrow> 'a \<Rightarrow> int" where
  "indexOf [] x = - 1"
| "indexOf (y # ys) x =
     (if y = x then 0 else (let r = indexOf ys x in if r < 0 then - 1 else r + 1))"

text \<open>
  \<^verbatim>\<open>sort()\<close> without a comparator orders strings by their code units, which is the
  lexicographic order of \<open>string\<close>.
\<close>

definition getMarkerSize :: "string \<Rightarrow> string list \<Rightarrow> MarkerSize" where
  "getMarkerSize timestamp' allTimestamps' =
     (if length allTimestamps' \<le> 1 then Medium
      else
        (let sortedTimes = sort allTimestamps';
             index = indexOf sortedTimes timestamp';
             ratio = real_of_int index / real (length sortedTimes - 1)
         in if ratio < 0.3 then Small else if ratio > 0.8 then Large else Medium))"

text \<open>The memo \<^verbatim>\<open>allTimestamps\<close>: the timestamps of every sample of the result.\<close>

definition allTimestamps :: "LocationResponse option \<Rightarrow> string list" where
  "allTimestamps locations' =
     (case locations' of None \<Rightarrow> [] | Some res \<Rightarrow> map timestamp (r_locations res))"

text \<open>The size the renderer gives the marker of a single-member cluster.\<close>

definition markerSize :: "LocationResponse option \<Rightarrow> LocationData \<Rightarrow> MarkerSize" where
  "markerSize locations' location = getMarkerSize (timestamp location) (allTimestamps locations')"

section \<open>Grouping and visibility\<close>

definition groupKey :: "LocationResponse \<Rightarrow> LocationData \<Rightarrow> string" where
  "groupKey res location = orElse (person location) (orElse (r_person res) ''unknown'')"

text \<open>
  The reducer of \<^verbatim>\<open>locationsByPerson\<close>. The own properties of the accumulator object are
  an association list in the order the keys were first stored. The first statement stores
  an empty array when \<^verbatim>\<open>acc[person]\<close> is falsy; the second pushes onto \<^verbatim>\<open>acc[person]\<close>, and
  throws a \<^verbatim>\<open>TypeError\<close> when that is an inherited property, which has no \<^verbatim>\<open>push\<close>.
\<close>

definition groupStep ::
  "LocationResponse \<Rightarrow> (string \<times> LocationData list) list \<Rightarrow> LocationData
     \<Rightarrow> JsError + (string \<times> LocationData list) list" where
  "groupStep res acc location =
     (let p = groupKey res location;
          acc1 = (if property (map_of acc) p = Missing then acc @ [(p, [])] else acc)
      in case property (map_of acc1) p of
           Own v \<Rightarrow> Inr (map (\<lambda>(k, w). if k = p then (k, w @ [location]) else (k, w)) acc1)
         | Inherited \<Rightarrow> Inl TypeError
         | Missing \<Rightarrow> Inl TypeError)"

text \<open>\<^verbatim>\<open>reduce\<close> with this reducer: an exception ends it.\<close>

fun reduceGroups ::
  "LocationResponse \<Rightarrow> (string \<times> LocationData list) list \<Rightarrow> LocationData list
     \<Rightarrow> JsError + (string \<times> LocationData list) list" where
  "reduceGroups res acc [] = Inr acc"
| "reduceGroups res acc (location # rest) =
     (case groupStep res acc location of
        Inl e \<Rightarrow> Inl e
      | Inr acc' \<Rightarrow> reduceGroups res acc' rest)"

definition locationsByPerson ::
  "LocationResponse option \<Rightarrow> JsError + (string \<times> LocationData list) list" where
  "locationsByPerson locations' =
     (case locations' of None \<Rightarrow> Inr [] | Some res \<Rightarrow> reduceGroups res [] (r_locations res))"

text \<open>The state of the \<^verbatim>\<open>Map\<close> component.\<close>

record MapState =
  showPaths :: bool
  showArrows :: bool
  showClusters :: bool
  visiblePersons :: "string set"

definition initialMapState :: MapState where
  "initialMapState = \<lparr>showPaths = True, showArrows = True, showClusters = True, visiblePersons = {}\<rparr>"

text \<open>
  The render for a new value of the property \<^verbatim>\<open>locations\<close> and the effect after it: the
  memo \<^verbatim>\<open>locationsByPerson\<close> is recomputed during the render, and the effect sets the
  visible persons to its keys. When the memo throws, the render fails and the effect does
  not run.
\<close>

definition onLocationsChange ::
  "MapState \<Rightarrow> LocationResponse option \<Rightarrow> JsError + MapState" where
  "onLocationsChange st locations' =
     (case locationsByPerson locations' of
        Inl e \<Rightarrow> Inl e
      | Inr groups \<Rightarrow> Inr (st\<lparr>visiblePersons := set (map fst groups)\<rparr>))"

definition togglePersonVisibility :: "MapState \<Rightarrow> string \<Rightarrow> MapState" where
  "togglePersonVisibility st p =
     st\<lparr>visiblePersons :=
          (if p \<in> visiblePersons st then visiblePersons st - {p} else insert p (visiblePersons st))\<rparr>"

text \<open>The grouping in the words of the specification: the set of attributed person ids.\<close>

definition resultPersons :: "LocationResponse \<Rightarrow> string set" where
  "resultPersons res =
     (\<lambda>s. case person s of
             Some p \<Rightarrow> if p \<noteq> [] then p
                       else (case r_person res of
                               Some q \<Rightarrow> if q \<noteq> [] then q else ''unknown''
                             | None \<Rightarrow> ''unknown'')
           | None \<Rightarrow> (case r_person res of
                        Some q \<Rightarrow> if q \<noteq> [] then q else ''unknown''
                      | None \<Rightarrow> ''unknown'')) ` set (r_locations res)"

section \<open>Map viewport\<close>

definition defaultCenter :: "real \<times> real" where
  "defaultCenter = (32.0853, 34.7818)"

definition defaultZoom :: nat where
  "defaultZoom = 13"

text \<open>\<^verbatim>\<open>Math.min\<close> and \<^verbatim>\<open>Math.max\<close> of a first argument and the others.\<close>

fun mathMin :: "real \<Rightarrow> real list \<Rightarrow> real" where
  "mathMin x [] = x"
| "mathMin x (y # ys) = mathMin (min x y) ys"

fun mathMax :: "real \<Rightarrow> real list \<Rightarrow> real" where
  "mathMax x [] = x"
| "mathMax x (y # ys) = mathMax (max x y) ys"

definition getMapBounds :: "LocationResponse option \<Rightarrow> (real \<times> real) \<times> nat" where
  "getMapBounds locations' =
     (case locations' of
        None \<Rightarrow> (defaultCenter, defaultZoom)
      | Some res \<Rightarrow>
          (case map (\<lambda>loc. (latitude loc, longitude loc)) (r_locations res) of
             [] \<Rightarrow> (defaultCenter, defaultZoom)
           | [c] \<Rightarrow> (c, 15)
           | c # cs \<Rightarrow>
               (((mathMin (fst c) (map fst cs) + mathMax (fst c) (map fst cs)) / 2,
                 (mathMin (snd c) (map snd cs) + mathMax (snd c) (map snd cs)) / 2),
                14)))"

section \<open>The query page\<close>

text \<open>
  The state of \<^verbatim>\<open>Home\<close> that \<^verbatim>\<open>handleQuery\<close> touches, with the messages shown by
  \<^verbatim>\<open>alert\<close> as a list.
\<close>

record PageState =
  locations :: "LocationResponse option"
  loading :: bool
  alerts :: "string list"

text \<open>
  What the awaited part of \<^verbatim>\<open>handleQuery\<close> ends in: \<^verbatim>\<open>fetch\<close> rejects, the response is not
  \<^verbatim>\<open>ok\<close>, \<^verbatim>\<open>response.json()\<close> rejects, or the body is parsed.
\<close>

datatype FetchOutcome =
  TransportFailure
| HttpFailure
| JsonFailure
| Success LocationResponse

text \<open>\<^verbatim>\<open>handleQuery\<close> up to its first \<^verbatim>\<open>await\<close>.\<close>

definition handleQuery_begin :: "PageState \<Rightarrow> PageState" where
  "handleQuery_begin st = st\<lparr>loading := True\<rparr>"

text \<open>\<^verbatim>\<open>handleQuery\<close> from the point where the awaited request has settled.\<close>

definition handleQuery_settle :: "PageState \<Rightarrow> FetchOutcome \<Rightarrow> PageState" where
  "handleQuery_settle st outcome =
     (case outcome of
        Success data \<Rightarrow> st\<lparr>locations := Some data, loading := False\<rparr>
      | _ \<Rightarrow>
          st\<lparr>alerts := alerts st @
                 [''Error querying locations. Make sure the backend server is running.''],
             loading := False\<rparr>)"

text \<open>One call of \<^verbatim>\<open>handleQuery\<close> with nothing else running in between.\<close>

definition handleQuery :: "PageState \<Rightarrow> FetchOutcome \<Rightarrow> PageState" where
  "handleQuery st outcome = handleQuery_settle (handleQuery_begin st) outcome"

text \<open>
  Overlapping calls: the page sees a query issued and, later, its request settle. The
  number names the query for the reader; the program keeps no such token.
\<close>

datatype PageEvent = Issue nat | Settle nat FetchOutcome

fun pageStep :: "PageState \<Rightarrow> PageEvent \<Rightarrow> PageState" where
  "pageStep st (Issue q) = handleQuery_begin st"
| "pageStep st (Settle q outcome) = handleQuery_settle st outcome"

definition runPage :: "PageState \<Rightarrow> PageEvent list \<Rightarrow> PageState" where
  "runPage st evs = foldl pageStep st evs"

text \<open>The payload of the last request that settled successfully, if any.\<close>

fun lastSuccess :: "PageEvent list \<Rightarrow> LocationResponse option" where
  "lastSuccess [] = None"
| "lastSuccess (Issue q # evs) = lastSuccess evs"
| "lastSuccess (Settle q outcome # evs) =
     (case lastSuccess evs of
        Some d \<Rightarrow> Some d
      | None \<Rightarrow> (case outcome of Success d \<Rightarrow> Some d | _ \<Rightarrow> None))"

section \<open>Notions of the specification\<close>

text \<open>The sizes of the clusters, in order.\<close>

definition clusterSizes :: "ClusterItem list \<Rightarrow> nat list" where
  "clusterSizes cs = map (\<lambda>c. length (c_locations c)) cs"

text \<open>
  The colour the override table of a result supplies for a person id, if any; an empty
  string is no colour.
\<close>

definition overrideColor :: "LocationResponse option \<Rightarrow> string \<Rightarrow> string option" where
  "overrideColor locations' p =
     (case locations' of
        None \<Rightarrow> None
      | Some res \<Rightarrow>
          (case person_colors res of
             None \<Rightarrow> None
           | Some tbl \<Rightarrow>
               (case tbl p of None \<Rightarrow> None | Some c \<Rightarrow> if c = [] then None else Some c)))"

text \<open>The timestamps of the samples of a result that are attributed to one person.\<close>

definition personTimestamps :: "LocationResponse \<Rightarrow> string \<Rightarrow> string list" where
  "personTimestamps res p =
     map timestamp (filter (\<lambda>l. groupKey res l = p) (r_locations res))"

text \<open>
  The rank of a sample in a result: the number of samples of the result, of any person,
  whose timestamp is before its own in the order of strings.
\<close>

definition rankInResult :: "LocationResponse \<Rightarrow> LocationData \<Rightarrow> nat" where
  "rankInResult res location =
     length (filter (\<lambda>t. t < timestamp location) (map timestamp (r_locations res)))"

text \<open>The ways a request fails.\<close>

definition failures :: "FetchOutcome set" where
  "failures = {TransportFailure, HttpFailure, JsonFailure}"

section \<open>Concrete inputs\<close>

text \<open>A sample of a person at a time and a coordinate; the other fields do not matter.\<close>

definition sampleAt :: "string \<Rightarrow> string \<Rightarrow> real \<Rightarrow> real \<Rightarrow> LocationData" where
  "sampleAt p t la lo =
     \<lparr>timestamp = t, latitude = la, longitude = lo, altitude = 0,
      horizontal_accuracy_meters = 5, vertical_accuracy_meters = 5, speed_mps = 0,
      bearing_degrees = 0, provider = ''gps'', person = Some p\<rparr>"

text \<open>
  Four samples of one person: a first sample three degrees north of a hub, and two samples
  two degrees west and east of the hub.
\<close>

definition hubSamples :: "LocationData list" where
  "hubSamples =
     [sampleAt ''person1'' ''2024-01-01T08:00:00'' 3 0,
      sampleAt ''person1'' ''2024-01-01T09:00:00'' 0 0,
      sampleAt ''person1'' ''2024-01-01T10:00:00'' 0 (- 2),
      sampleAt ''person1'' ''2024-01-01T11:00:00'' 0 2]"

text \<open>A result that holds the given samples and nothing else.\<close>

definition responseOf :: "LocationData list \<Rightarrow> LocationResponse" where
  "responseOf ls =
     \<lparr>r_person = None, r_persons = None, time_period = None, r_locations = ls,
      summary = ''summary'', coordinates = None, person_colors = None\<rparr>"

text \<open>One sample of \<^verbatim>\<open>person1\<close> at 08:00 and one of \<^verbatim>\<open>person2\<close> at 09:00.\<close>

definition twoPersonResult :: LocationResponse where
  "twoPersonResult =
     responseOf [sampleAt ''person1'' ''2024-01-01T08:00:00'' 32 34.7,
                 sampleAt ''person2'' ''2024-01-01T09:00:00'' 32.1 34.8]"

text \<open>Ten samples of one person, one an hour from 08:00 to 17:00.\<close>

definition tenSamples :: "LocationData list" where
  "tenSamples =
     [sampleAt ''person1'' ''2024-01-01T08:00:00'' 32 34.7,
      sampleAt ''person1'' ''2024-01-01T09:00:00'' 32 34.7,
      sampleAt ''person1'' ''2024-01-01T10:00:00'' 32 34.7,
      sampleAt ''person1'' ''2024-01-01T11:00:00'' 32 34.7,
      sampleAt ''person1'' ''2024-01-01T12:00:00'' 32 34.7,
      sampleAt ''person1'' ''2024-01-01T13:00:00'' 32 34.7,
      sampleAt ''person1'' ''2024-01-01T14:00:00'' 32 34.7,
      sampleAt ''person1'' ''2024-01-01T15:00:00'' 32 34.7,
      sampleAt ''person1'' ''2024-01-01T16:00:00'' 32 34.7,
      sampleAt ''person1'' ''2024-01-01T17:00:00'' 32 34.7]"

text \<open>Results with the persons A and B, and A and C.\<close>

definition resultAB :: LocationResponse where
  "resultAB =
     responseOf [sampleAt ''A'' ''2024-01-01T08:00:00'' 32 34.7,
                 sampleAt ''B'' ''2024-01-01T09:00:00'' 32.1 34.8]"

definition resultAC :: LocationResponse where
  "resultAC =
     responseOf [sampleAt ''A'' ''2024-01-02T08:00:00'' 32 34.7,
                 sampleAt ''C'' ''2024-01-02T09:00:00'' 32.1 34.8]"

text \<open>A result with one sample of a person called \<^verbatim>\<open>constructor\<close>.\<close>

definition constructorResult :: LocationResponse where
  "constructorResult = responseOf [sampleAt ''constructor'' ''2024-01-01T08:00:00'' 32 34.7]"

text \<open>A result whose override table gives \<^verbatim>\<open>person1\<close> a colour.\<close>

definition overrideResult :: LocationResponse where
  "overrideResult = (responseOf [])\<lparr>person_colors := Some [''person1'' \<mapsto> ''#ABCDEF'']\<rparr>"

text \<open>The page as it is first rendered.\<close>

definition initialPageState :: PageState where
  "initialPageState = \<lparr>locations = None, loading = False, alerts = []\<rparr>"

section \<open>Clustering: the loops and the greedy reference\<close>

text \<open>
  The inner loop visits every index once, so testing an index against the growing set
  \<^verbatim>\<open>processed\<close> is testing it against the set the loop started with.
\<close>

lemma inner_fold_gen:
  assumes "distinct (map fst ps)"
    and J: "\<And>Q j l. J Q (j, l) \<longleftrightarrow>
              j \<noteq> k \<and> j \<notin> Q \<and> personOrUnknown (person l) = cp \<and> distance x l \<le> thr"
  shows "foldl (inner_step thr x k cp) (ms, Q) ps =
    (ms @ map snd (filter (J Q) ps), Q \<union> fst ` set (filter (J Q) ps))"
  using assms(1)
proof (induction ps arbitrary: ms Q)
  case Nil
  then show ?case by simp
next
  case (Cons p ps)
  obtain j l where p: "p = (j, l)" by (cases p)
  from Cons.prems p have jn: "j \<notin> fst ` set ps" and d: "distinct (map fst ps)" by auto
  have same: "filter (J (insert j Q)) ps = filter (J Q) ps"
  proof (rule filter_cong[OF refl])
    fix q assume "q \<in> set ps"
    with jn have "fst q \<noteq> j" by auto
    then show "J (insert j Q) q = J Q q" by (cases q) (simp add: J)
  qed
  show ?case
  proof (cases "J Q (j, l)")
    case True
    then have "inner_step thr x k cp (ms, Q) p = (ms @ [l], insert j Q)"
      by (auto simp: inner_step_def p J)
    then show ?thesis
      using Cons.IH[OF d, of "ms @ [l]" "insert j Q"] True by (simp add: p same)
  next
    case False
    then have "inner_step thr x k cp (ms, Q) p = (ms, Q)"
      by (auto simp: inner_step_def p J)
    then show ?thesis
      using Cons.IH[OF d, of ms Q] False by (simp add: p)
  qed
qed

lemma distinct_fst_unique:
  "distinct (map fst ps) \<Longrightarrow> (j, l) \<in> set ps \<Longrightarrow> (j, l') \<in> set ps \<Longrightarrow> l = l'"
  by (meson eq_key_imp_eq_value)

text \<open>
  The outer loop, started anywhere in the list with every earlier index processed,
  appends the greedy clustering of the samples still unprocessed.
\<close>

lemma outer_fold:
  assumes "List.enumerate 0 locs = pre @ ps" and "fst ` set pre \<subseteq> P"
  shows "fst (foldl (outer_step thr locs) (cs, P) ps) =
           cs @ greedy_reference thr (map snd (filter (\<lambda>q. fst q \<notin> P) ps))"
  using assms
proof (induction ps arbitrary: pre cs P)
  case Nil
  then show ?case by simp
next
  case (Cons p ps)
  obtain k x where p: "p = (k, x)" by (cases p)
  have en: "List.enumerate 0 locs = (pre @ [p]) @ ps" using Cons.prems(1) by simp
  have dist: "distinct (map fst (pre @ p # ps))"
    using Cons.prems(1)[symmetric] by (simp del: map_append)
  then have dps: "distinct (map fst ps)" and kps: "k \<notin> fst ` set ps"
    by (auto simp: p)
  show ?case
  proof (cases "k \<in> P")
    case True
    then have step: "outer_step thr locs (cs, P) (k, x) = (cs, P)"
      by (simp add: outer_step_def p)
    have "fst ` set (pre @ [p]) \<subseteq> P" using Cons.prems(2) True by (simp add: p)
    from Cons.IH[OF en this, of cs] show ?thesis
      using True by (simp add: step p)
  next
    case False
    define J where "J = (\<lambda>Q (q :: nat \<times> LocationItem). fst q \<noteq> k \<and> fst q \<notin> Q \<and>
        personOrUnknown (person (snd q)) = personOrUnknown (person x) \<and> distance x (snd q) \<le> thr)"
    have J: "\<And>Q j l. J Q (j, l) \<longleftrightarrow> j \<noteq> k \<and> j \<notin> Q \<and>
        personOrUnknown (person l) = personOrUnknown (person x) \<and> distance x l \<le> thr"
      by (simp add: J_def)
    have pre_out: "filter (J P) pre = []"
      using Cons.prems(2) by (auto simp: filter_empty_conv J_def)
    have Jps: "\<And>q. q \<in> set ps \<Longrightarrow> J P q \<longleftrightarrow> fst q \<notin> P \<and> joins thr x (snd q)"
      using kps by (auto simp: J_def joins_def)
    have flt: "filter (J P) (pre @ p # ps) = filter (J P) ps"
      by (simp add: pre_out p J)
    have "foldl (inner_step thr x k (personOrUnknown (person x))) ([x], P) (pre @ p # ps)
        = ([x] @ map snd (filter (J P) (pre @ p # ps)),
           P \<union> fst ` set (filter (J P) (pre @ p # ps)))"
      by (rule inner_fold_gen[OF dist J])
    then have inner:
      "foldl (inner_step thr x k (personOrUnknown (person x))) ([x], P) (List.enumerate 0 locs)
        = ([x] @ map snd (filter (J P) ps), P \<union> fst ` set (filter (J P) ps))"
      by (simp only: flt Cons.prems(1))
    define c where "c = \<lparr>c_locations = x # map snd (filter (J P) ps),
        center = (latitude x, longitude x), c_person = personOrUnknown (person x)\<rparr>"
    define P' where "P' = insert k (P \<union> fst ` set (filter (J P) ps))"
    have step: "outer_step thr locs (cs, P) (k, x) = (cs @ [c], P')"
      using False by (simp add: outer_step_def inner c_def P'_def)
    have sub: "fst ` set (pre @ [p]) \<subseteq> P'"
      using Cons.prems(2) by (auto simp: p P'_def)
    have A: "map snd (filter (J P) ps)
        = filter (joins thr x) (map snd (filter (\<lambda>q. fst q \<notin> P) ps))"
    proof -
      have "filter (J P) ps = filter (\<lambda>q. fst q \<notin> P \<and> joins thr x (snd q)) ps"
        by (rule filter_cong[OF refl]) (rule Jps)
      then show ?thesis by (simp add: filter_map comp_def conj_commute)
    qed
    have inP': "\<And>q. q \<in> set ps \<Longrightarrow> fst q \<notin> P' \<longleftrightarrow> fst q \<notin> P \<and> \<not> joins thr x (snd q)"
    proof -
      fix q assume q: "q \<in> set ps"
      obtain j l where ql: "q = (j, l)" by (cases q)
      have jk: "j \<noteq> k" using q kps ql by force
      have "j \<in> fst ` set (filter (J P) ps) \<longleftrightarrow> J P (j, l)"
      proof
        assume "j \<in> fst ` set (filter (J P) ps)"
        then obtain l' where l': "(j, l') \<in> set ps" "J P (j, l')" by auto
        with distinct_fst_unique[OF dps] q ql have "l' = l" by blast
        with l' show "J P (j, l)" by simp
      next
        assume "J P (j, l)"
        with q ql show "j \<in> fst ` set (filter (J P) ps)" by force
      qed
      with Jps[OF q] jk show "fst q \<notin> P' \<longleftrightarrow> fst q \<notin> P \<and> \<not> joins thr x (snd q)"
        by (auto simp: P'_def ql)
    qed
    have B: "map snd (filter (\<lambda>q. fst q \<notin> P') ps)
        = filter (\<lambda>l. \<not> joins thr x l) (map snd (filter (\<lambda>q. fst q \<notin> P) ps))"
    proof -
      have "filter (\<lambda>q. fst q \<notin> P') ps
          = filter (\<lambda>q. fst q \<notin> P \<and> \<not> joins thr x (snd q)) ps"
        by (rule filter_cong[OF refl]) (rule inP')
      then show ?thesis by (simp add: filter_map comp_def conj_commute)
    qed
    from Cons.IH[OF en sub, of "cs @ [c]"] show ?thesis
      using False by (simp add: step p A B c_def)
  qed
qed

lemma clusterLocations_greedy: "clusterLocations locs thr = greedy_reference thr locs"
proof -
  have "fst (foldl (outer_step thr locs) ([], {}) (List.enumerate 0 locs))
      = [] @ greedy_reference thr (map snd (filter (\<lambda>q. fst q \<notin> {}) (List.enumerate 0 locs)))"
    by (rule outer_fold[of locs "[]"]) simp_all
  then show ?thesis by (simp add: clusterLocations_def)
qed

text \<open>The comparison of the square root with the threshold, without the square root.\<close>

lemma distance_le_iff:
  "distance a b \<le> t \<longleftrightarrow>
     0 \<le> t \<and> ((latitude a - latitude b) * 111000)\<^sup>2
               + ((longitude a - longitude b) * 111000)\<^sup>2 \<le> t\<^sup>2"
proof (cases "0 \<le> t")
  case True
  then have "sqrt (t\<^sup>2) = t" by simp
  then have "distance a b \<le> t \<longleftrightarrow> distance a b \<le> sqrt (t\<^sup>2)" by simp
  also have "\<dots> \<longleftrightarrow> ((latitude a - latitude b) * 111000)\<^sup>2
                        + ((longitude a - longitude b) * 111000)\<^sup>2 \<le> t\<^sup>2"
    unfolding distance_def by (rule real_sqrt_le_iff)
  finally show ?thesis using True by simp
next
  case False
  have "0 \<le> distance a b" by (simp add: distance_def)
  with False show ?thesis by simp
qed

lemma greedy_mset: "mset (concat (map c_locations (greedy_reference thr ls))) = mset ls"
  by (induction thr ls rule: greedy_reference.induct) simp_all

lemma greedy_nonempty: "[] \<notin> set (map c_locations (greedy_reference thr ls))"
  by (induction thr ls rule: greedy_reference.induct) simp_all

lemma greedy_sizes:
  "sum_list (map (\<lambda>c. length (c_locations c)) (greedy_reference thr ls)) = length ls"
proof -
  have "sum_list (map (\<lambda>c. length (c_locations c)) (greedy_reference thr ls))
      = length (concat (map c_locations (greedy_reference thr ls)))"
    by (simp add: length_concat comp_def)
  also have "\<dots> = size (mset (concat (map c_locations (greedy_reference thr ls))))" by simp
  also have "\<dots> = length ls" by (simp only: greedy_mset size_mset)
  finally show ?thesis .
qed

lemma hub_sizes_small:
  "clusterSizes (clusterLocations hubSamples 250000) = [1, 3]"
  by (simp add: clusterSizes_def clusterLocations_greedy hubSamples_def sampleAt_def joins_def distance_le_iff
      personOrUnknown_def orElse_def)

lemma hub_sizes_large:
  "clusterSizes (clusterLocations hubSamples 350000) = [2, 1, 1]"
  by (simp add: clusterSizes_def clusterLocations_greedy hubSamples_def sampleAt_def joins_def distance_le_iff
      personOrUnknown_def orElse_def)

text \<open>
  C1. For every list of samples and every threshold, the clusters of \<open>clusterLocations\<close>
  cover every sample exactly once: the members of all clusters together are the input
  samples, each as often as it occurs in the input; no cluster is empty; and the cluster
  sizes add up to the number of samples.
\<close>

theorem clusterLocations_covers_once:
  "mset (concat (map c_locations (clusterLocations locs thr))) = mset locs
   \<and> [] \<notin> set (map c_locations (clusterLocations locs thr))
   \<and> sum_list (clusterSizes (clusterLocations locs thr)) = length locs"
  by (simp only: clusterSizes_def clusterLocations_greedy greedy_mset greedy_nonempty
      greedy_sizes simp_thms)

theorem clusterLocations_covers_once_witness:
  "mset (concat (map c_locations (clusterLocations hubSamples 250000))) = mset hubSamples
   \<and> [] \<notin> set (map c_locations (clusterLocations hubSamples 250000))
   \<and> sum_list (clusterSizes (clusterLocations hubSamples 250000)) = 4"
  using clusterLocations_covers_once[of hubSamples 250000] by (simp add: hubSamples_def)

text \<open>
  C2. \<open>clusterLocations\<close> is the single-pass greedy reference: in input order, each sample
  not yet assigned seeds a cluster whose centre is the seed's coordinate, and the later
  unassigned samples of the same person within the threshold of the seed join it. A list
  of one sample gives one cluster holding that sample, centred on its coordinate.
\<close>

theorem clusterLocations_is_greedy_reference:
  "clusterLocations locs thr = greedy_reference thr locs
   \<and> clusterLocations [s] thr =
       [\<lparr>c_locations = [s], center = (latitude s, longitude s),
         c_person = personOrUnknown (person s)\<rparr>]"
  by (simp add: clusterLocations_greedy)

theorem clusterLocations_is_greedy_reference_witness:
  "clusterLocations hubSamples 350000 = greedy_reference 350000 hubSamples
   \<and> map center (clusterLocations [sampleAt ''person1'' ''2024-01-01T08:00:00'' 3 0] 350000)
       = [(3, 0)]"
  using clusterLocations_is_greedy_reference
    [of hubSamples 350000 "sampleAt ''person1'' ''2024-01-01T08:00:00'' 3 0"]
  by (simp add: sampleAt_def)

text \<open>
  C3, as stated: a larger threshold never gives more clusters and never smaller ones.
  On the four hub samples the threshold 250000 gives two clusters, of sizes 1 and 3; the
  threshold 350000 lets the first sample take the hub, and gives three clusters, of sizes
  2, 1 and 1.
\<close>

theorem threshold_monotonicity_counterexample:
  "(250000 :: real) \<le> 350000
   \<and> length (clusterLocations hubSamples 250000) = 2
   \<and> length (clusterLocations hubSamples 350000) = 3
   \<and> clusterSizes (clusterLocations hubSamples 250000) = [1, 3]
   \<and> clusterSizes (clusterLocations hubSamples 350000) = [2, 1, 1]"
proof -
  have l1: "length (clusterLocations hubSamples 250000) = 2"
    using arg_cong[OF hub_sizes_small, of length] by (simp add: clusterSizes_def)
  have l2: "length (clusterLocations hubSamples 350000) = 3"
    using arg_cong[OF hub_sizes_large, of length] by (simp add: clusterSizes_def)
  show ?thesis
    by (simp add: l1 l2 hub_sizes_small hub_sizes_large)
qed

text \<open>
  C3, amended: for thresholds \<open>t1 \<le> t2\<close> and a non-empty list of samples, the cluster
  seeded by the first sample has the same centre under both thresholds, and its members
  under \<open>t1\<close> are among its members under \<open>t2\<close>, in the same order: the first cluster
  never shrinks.
\<close>

theorem first_cluster_monotone:
  assumes "t1 \<le> t2"
  shows "\<exists>c1 cs1 c2 cs2.
     clusterLocations (s # rest) t1 = c1 # cs1 \<and> clusterLocations (s # rest) t2 = c2 # cs2
     \<and> center c1 = (latitude s, longitude s) \<and> center c2 = (latitude s, longitude s)
     \<and> subseq (c_locations c1) (c_locations c2)
     \<and> length (c_locations c1) \<le> length (c_locations c2)"
proof -
  have imp: "\<And>l. joins t1 s l \<Longrightarrow> joins t2 s l" using assms by (auto simp: joins_def)
  have "filter (joins t1 s) rest = filter (joins t1 s) (filter (joins t2 s) rest)"
    using imp by (auto intro: filter_cong)
  then have sub: "subseq (filter (joins t1 s) rest) (filter (joins t2 s) rest)"
    by (metis subseq_filter_left)
  then have "length (filter (joins t1 s) rest) \<le> length (filter (joins t2 s) rest)"
    by (rule list_emb_length)
  with sub show ?thesis by (simp add: clusterLocations_greedy)
qed

theorem first_cluster_monotone_witness:
  "(250000 :: real) \<le> 350000 \<and>
   (\<exists>c1 cs1 c2 cs2.
     clusterLocations hubSamples 250000 = c1 # cs1 \<and> clusterLocations hubSamples 350000 = c2 # cs2
     \<and> center c1 = (3, 0) \<and> center c2 = (3, 0)
     \<and> subseq (c_locations c1) (c_locations c2)
     \<and> length (c_locations c1) \<le> length (c_locations c2))"
proof -
  have h: "(250000 :: real) \<le> 350000" by simp
  show ?thesis
    using first_cluster_monotone[OF h, of "sampleAt ''person1'' ''2024-01-01T08:00:00'' 3 0"
      "[sampleAt ''person1'' ''2024-01-01T09:00:00'' 0 0,
        sampleAt ''person1'' ''2024-01-01T10:00:00'' 0 (- 2),
        sampleAt ''person1'' ''2024-01-01T11:00:00'' 0 2]"]
    by (simp add: hubSamples_def sampleAt_def)
qed

section \<open>Marker size: the rank of a timestamp\<close>

lemma indexOf_sorted:
  "sorted ys \<Longrightarrow> t \<in> set ys \<Longrightarrow> indexOf ys t = int (length (filter (\<lambda>x. x < t) ys))"
proof (induction ys)
  case Nil
  then show ?case by simp
next
  case (Cons y ys)
  show ?case
  proof (cases "y = t")
    case True
    with Cons.prems(1) have "filter (\<lambda>x. x < t) ys = []"
      by (auto simp: filter_empty_conv)
    with True show ?thesis by simp
  next
    case False
    with Cons.prems have mem: "t \<in> set ys" and lt: "y < t" by auto
    from Cons.IH[OF _ mem] Cons.prems(1)
    have "indexOf ys t = int (length (filter (\<lambda>x. x < t) ys))"
      by simp
    with False lt show ?thesis by (simp add: Let_def)
  qed
qed

lemma length_filter_sort: "length (filter P (sort xs)) = length (filter P xs)"
proof -
  have "mset (filter P (sort xs)) = mset (filter P xs)" by simp
  then show ?thesis by (metis size_mset)
qed

lemma indexOf_sort_rank:
  "t \<in> set xs \<Longrightarrow> indexOf (sort xs) t = int (length (filter (\<lambda>x. x < t) xs))"
  using indexOf_sorted[of "sort xs" t] by (simp add: length_filter_sort)

lemma getMarkerSize_rank:
  assumes "t \<in> set ts"
  shows "getMarkerSize t ts =
    (if length ts \<le> 1 then Medium
     else if real (length (filter (\<lambda>x. x < t) ts)) / real (length ts - 1) < 0.3 then Small
     else if real (length (filter (\<lambda>x. x < t) ts)) / real (length ts - 1) > 0.8 then Large
     else Medium)"
  using assms by (simp add: getMarkerSize_def Let_def indexOf_sort_rank)

lemma getMarkerSize_ten:
  assumes "t \<in> set ts" "length ts = 10"
  shows "getMarkerSize t ts =
    (if length (filter (\<lambda>x. x < t) ts) \<le> 2 then Small
     else if length (filter (\<lambda>x. x < t) ts) \<le> 7 then Medium else Large)"
proof -
  define k where "k = length (filter (\<lambda>x. x < t) ts)"
  have "real k / 9 < 0.3 \<longleftrightarrow> k \<le> 2" by (simp add: field_simps) linarith
  moreover have "real k / 9 > 0.8 \<longleftrightarrow> \<not> k \<le> 7" by (simp add: field_simps) linarith
  ultimately show ?thesis
    using assms by (simp add: getMarkerSize_rank k_def[symmetric])
qed

text \<open>
  C4, as stated: the tier comes from the rank among the timestamps of the sample's own
  person, and a person with a single sample gets medium whatever other persons the result
  holds. In the result of two persons, \<^verbatim>\<open>person1\<close> has the single sample of 08:00, for which
  its own timestamps give medium, and which alone in a result is drawn medium; beside the
  sample of \<^verbatim>\<open>person2\<close> it is drawn small.
\<close>

theorem per_person_rank_counterexample:
  "personTimestamps twoPersonResult ''person1'' = [''2024-01-01T08:00:00'']
   \<and> getMarkerSize ''2024-01-01T08:00:00'' (personTimestamps twoPersonResult ''person1'') = Medium
   \<and> markerSize (Some (responseOf [sampleAt ''person1'' ''2024-01-01T08:00:00'' 32 34.7]))
        (sampleAt ''person1'' ''2024-01-01T08:00:00'' 32 34.7) = Medium
   \<and> markerSize (Some twoPersonResult) (sampleAt ''person1'' ''2024-01-01T08:00:00'' 32 34.7)
        = Small"
  by (simp add: personTimestamps_def twoPersonResult_def responseOf_def sampleAt_def
      groupKey_def orElse_def getMarkerSize_def markerSize_def allTimestamps_def
      less_eq_char_def less_char_def)

text \<open>
  C4, amended: the tier of a sample comes from its rank among the sorted timestamps of all
  the samples of the result, of every person: the rank is the number of timestamps of the
  result before its own, and with \<open>ratio = rank / (count - 1)\<close> for the \<open>count\<close> samples of
  the result, \<open>ratio < 0.3\<close> is small, \<open>ratio > 0.8\<close> is large, anything else medium; a
  result of a single sample gives medium. In a result of 10 samples the ranks 0 to 2 are
  small, 3 to 7 medium, 8 and 9 large.
\<close>

theorem markerSize_rank_in_result:
  assumes "location \<in> set (r_locations res)"
  shows "markerSize (Some res) location =
      (if length (r_locations res) \<le> 1 then Medium
       else if real (rankInResult res location) / real (length (r_locations res) - 1) < 0.3
         then Small
       else if real (rankInResult res location) / real (length (r_locations res) - 1) > 0.8
         then Large
       else Medium)
    \<and> (length (r_locations res) = 10 \<longrightarrow>
        markerSize (Some res) location =
          (if rankInResult res location \<le> 2 then Small
           else if rankInResult res location \<le> 7 then Medium else Large))"
proof -
  have mem: "timestamp location \<in> set (map timestamp (r_locations res))"
    using assms by simp
  have len: "length (map timestamp (r_locations res)) = length (r_locations res)"
    by simp
  show ?thesis
    using getMarkerSize_rank[OF mem] getMarkerSize_ten[OF mem]
    unfolding markerSize_def allTimestamps_def rankInResult_def len
    by simp
qed

lemma ten_ranks:
  "map (rankInResult (responseOf tenSamples)) tenSamples = [0, 1, 2, 3, 4, 5, 6, 7, 8, 9]"
  by (simp add: rankInResult_def responseOf_def tenSamples_def sampleAt_def
      less_eq_char_def less_char_def)

theorem markerSize_rank_in_result_witness:
  "sampleAt ''person1'' ''2024-01-01T11:00:00'' 32 34.7 \<in> set (r_locations (responseOf tenSamples))
   \<and> length (r_locations (responseOf tenSamples)) = 10
   \<and> rankInResult (responseOf tenSamples) (sampleAt ''person1'' ''2024-01-01T11:00:00'' 32 34.7) = 3
   \<and> markerSize (Some (responseOf tenSamples))
        (sampleAt ''person1'' ''2024-01-01T11:00:00'' 32 34.7) = Medium"
proof -
  have mem: "sampleAt ''person1'' ''2024-01-01T11:00:00'' 32 34.7
      \<in> set (r_locations (responseOf tenSamples))"
    by (simp add: responseOf_def tenSamples_def)
  have len: "length (r_locations (responseOf tenSamples)) = 10"
    by (simp add: responseOf_def tenSamples_def)
  have rank: "rankInResult (responseOf tenSamples)
      (sampleAt ''person1'' ''2024-01-01T11:00:00'' 32 34.7) = 3"
    using arg_cong[OF ten_ranks, of "\<lambda>rs. rs ! 3"] by (simp add: tenSamples_def)
  show ?thesis
    using markerSize_rank_in_result[OF mem] mem len rank by simp
qed

section \<open>Grouping and the visible persons\<close>

lemma groupStep_ok:
  assumes "groupKey res l \<notin> set objectPrototypeNames"
  shows "\<exists>acc'. groupStep res acc l = Inr acc'
           \<and> fst ` set acc' = insert (groupKey res l) (fst ` set acc)"
proof (cases "map_of acc (groupKey res l)")
  case None
  then have miss: "property (map_of acc) (groupKey res l) = Missing"
    using assms by (simp add: property_def)
  have own: "property ([groupKey res l \<mapsto> []] ++ map_of acc) (groupKey res l) = Own []"
    using None by (simp add: property_def map_add_def)
  have "groupStep res acc l =
      Inr (map (\<lambda>(k, w). if k = groupKey res l then (k, w @ [l]) else (k, w))
             (acc @ [(groupKey res l, [])]))"
    by (simp add: groupStep_def Let_def miss own)
  moreover have "fst ` set (map (\<lambda>(k, w). if k = groupKey res l then (k, w @ [l]) else (k, w))
             (acc @ [(groupKey res l, [])])) = insert (groupKey res l) (fst ` set acc)"
    by (force split: prod.splits if_splits)
  ultimately show ?thesis by blast
next
  case (Some v)
  then have own: "property (map_of acc) (groupKey res l) = Own v"
    by (simp add: property_def)
  have mem: "groupKey res l \<in> fst ` set acc"
    using Some by (metis map_of_eq_None_iff option.distinct(1))
  have "groupStep res acc l =
      Inr (map (\<lambda>(k, w). if k = groupKey res l then (k, w @ [l]) else (k, w)) acc)"
    by (simp add: groupStep_def Let_def own)
  moreover have "fst ` set (map (\<lambda>(k, w). if k = groupKey res l then (k, w @ [l]) else (k, w)) acc)
      = insert (groupKey res l) (fst ` set acc)"
    using mem by (force split: prod.splits if_splits)
  ultimately show ?thesis by blast
qed

lemma reduceGroups_ok:
  assumes "\<forall>l\<in>set ls. groupKey res l \<notin> set objectPrototypeNames"
  shows "\<exists>acc'. reduceGroups res acc ls = Inr acc'
           \<and> fst ` set acc' = fst ` set acc \<union> groupKey res ` set ls"
  using assms
proof (induction ls arbitrary: acc)
  case Nil
  then show ?case by simp
next
  case (Cons l ls)
  from Cons.prems have "groupKey res l \<notin> set objectPrototypeNames" by simp
  from groupStep_ok[OF this, of acc] obtain acc1 where
    step: "groupStep res acc l = Inr acc1"
    and keys: "fst ` set acc1 = insert (groupKey res l) (fst ` set acc)" by blast
  from Cons.prems have "\<forall>l\<in>set ls. groupKey res l \<notin> set objectPrototypeNames" by simp
  from Cons.IH[OF this, of acc1] obtain acc' where
    "reduceGroups res acc1 ls = Inr acc'"
    "fst ` set acc' = fst ` set acc1 \<union> groupKey res ` set ls" by blast
  with step keys show ?case by auto
qed

lemma resultPersons_groupKey: "resultPersons res = groupKey res ` set (r_locations res)"
  unfolding resultPersons_def
  by (rule image_cong[OF refl]) (simp add: groupKey_def orElse_def split: option.splits)

lemma visible_after_result:
  assumes "resultPersons res \<inter> set objectPrototypeNames = {}"
  shows "onLocationsChange st (Some res) = Inr (st\<lparr>visiblePersons := resultPersons res\<rparr>)"
proof -
  have "\<forall>l\<in>set (r_locations res). groupKey res l \<notin> set objectPrototypeNames"
    using assms by (auto simp: resultPersons_groupKey)
  from reduceGroups_ok[OF this, of "[]"] obtain groups where
    "reduceGroups res [] (r_locations res) = Inr groups"
    "fst ` set groups = groupKey res ` set (r_locations res)" by auto
  then show ?thesis
    by (simp add: onLocationsChange_def locationsByPerson_def resultPersons_groupKey)
qed

text \<open>
  For a result whose person ids are no property names of \<^verbatim>\<open>Object.prototype\<close>, the visible
  persons become the person ids of the grouping from any earlier state, also after an
  earlier result and toggles, and the flags stay as they were.
\<close>

lemma visible_reset_on_plain_ids:
  assumes "resultPersons res \<inter> set objectPrototypeNames = {}"
  shows "\<exists>st'. onLocationsChange st (Some res) = Inr st'
     \<and> visiblePersons st' = resultPersons res
     \<and> showPaths st' = showPaths st
     \<and> showArrows st' = showArrows st
     \<and> showClusters st' = showClusters st"
  by (simp add: visible_after_result[OF assms])

lemma visible_reset_scenario:
  "\<exists>st1. onLocationsChange initialMapState (Some resultAB) = Inr st1
     \<and> visiblePersons st1 = {''A'', ''B''}
     \<and> (\<exists>st2. onLocationsChange (foldl togglePersonVisibility st1 [''A'']) (Some resultAC)
                  = Inr st2
           \<and> visiblePersons st2 = {''A'', ''C''}
           \<and> showPaths st2 \<and> showArrows st2 \<and> showClusters st2)"
proof -
  have ab: "resultPersons resultAB = {''A'', ''B''}"
    by (simp add: resultPersons_def resultAB_def responseOf_def sampleAt_def)
  have ac: "resultPersons resultAC = {''A'', ''C''}"
    by (simp add: resultPersons_def resultAC_def responseOf_def sampleAt_def)
  have hab: "resultPersons resultAB \<inter> set objectPrototypeNames = {}"
    by (simp add: ab objectPrototypeNames_def)
  have hac: "resultPersons resultAC \<inter> set objectPrototypeNames = {}"
    by (simp add: ac objectPrototypeNames_def)
  from visible_reset_on_plain_ids[OF hab, of initialMapState] obtain st1 where
    st1: "onLocationsChange initialMapState (Some resultAB) = Inr st1"
      "visiblePersons st1 = {''A'', ''B''}"
      "showPaths st1" "showArrows st1" "showClusters st1"
    by (auto simp: ab initialMapState_def)
  have tog: "showPaths (foldl togglePersonVisibility st1 [''A''])
      \<and> showArrows (foldl togglePersonVisibility st1 [''A''])
      \<and> showClusters (foldl togglePersonVisibility st1 [''A''])"
    using st1 by (simp add: togglePersonVisibility_def)
  from visible_reset_on_plain_ids[OF hac, of "foldl togglePersonVisibility st1 [''A'']"]
  obtain st2 where
    "onLocationsChange (foldl togglePersonVisibility st1 [''A'']) (Some resultAC) = Inr st2"
    "visiblePersons st2 = {''A'', ''C''}" "showPaths st2" "showArrows st2" "showClusters st2"
    using tog by (auto simp: ac)
  with st1 show ?thesis by blast
qed





text \<open>
  C5. When a new result arrives, the visible persons are to become exactly the person ids
  of its grouping. A result with one sample of a person called \<^verbatim>\<open>constructor\<close> has the
  grouping \<open>{constructor}\<close>; the accumulator \<^verbatim>\<open>{}\<close> inherits a property of that name, so no
  array is stored and the push throws: the render fails and no visible set is installed.
\<close>

theorem grouping_throws_on_inherited_name:
  "resultPersons constructorResult = {''constructor''}
   \<and> locationsByPerson (Some constructorResult) = Inl TypeError
   \<and> onLocationsChange st (Some constructorResult) = Inl TypeError"
  by (simp add: onLocationsChange_def locationsByPerson_def constructorResult_def responseOf_def
      sampleAt_def groupStep_def groupKey_def orElse_def property_def objectPrototypeNames_def
      resultPersons_def)

section \<open>The query page: overlapping and failing queries\<close>

lemma runPage_last:
  "locations (runPage st evs) =
     (case lastSuccess evs of None \<Rightarrow> locations st | Some d \<Rightarrow> Some d)"
  unfolding runPage_def
proof (induction evs arbitrary: st)
  case Nil
  then show ?case by simp
next
  case (Cons e evs)
  show ?case
  proof (cases e)
    case (Issue q)
    then show ?thesis
      by (simp add: Cons.IH handleQuery_begin_def split: option.splits)
  next
    case (Settle q outcome)
    then show ?thesis
      by (cases outcome) (simp_all add: Cons.IH handleQuery_settle_def split: option.splits)
  qed
qed

text \<open>
  C6, as stated: with a query Q1 issued before Q2, the result displayed once both have
  resolved is that of Q2, in whichever order the responses arrive. When the response of Q2
  arrives first and that of Q1 second, the page displays the response of Q1.
\<close>

theorem stale_response_counterexample:
  "locations
     (runPage initialPageState
        [Issue 1, Issue 2, Settle 2 (Success resultAC), Settle 1 (Success resultAB)])
     = Some resultAB
   \<and> resultAB \<noteq> resultAC"
  by (simp add: runPage_def handleQuery_begin_def handleQuery_settle_def initialPageState_def
      resultAB_def resultAC_def responseOf_def sampleAt_def)

text \<open>
  C6, amended: the page keeps no token of the query it issued last; the result displayed
  after any run of queries is the response that arrived last among the successful ones
  (the earlier result when none succeeded). For Q1 issued before Q2, the page displays the
  response of Q2 when it arrives after the response of Q1, or when Q1 fails; it displays
  the response of Q1 when that one arrives last.
\<close>

theorem last_arrival_is_displayed:
  "locations (runPage st evs) =
     (case lastSuccess evs of None \<Rightarrow> locations st | Some d \<Rightarrow> Some d)
   \<and> locations (runPage st [Issue q1, Issue q2, Settle q1 o1, Settle q2 (Success d2)]) = Some d2
   \<and> locations (runPage st [Issue q1, Issue q2, Settle q2 o2, Settle q1 (Success d1)]) = Some d1
   \<and> (o1 \<in> failures \<longrightarrow>
        locations (runPage st [Issue q1, Issue q2, Settle q2 (Success d2), Settle q1 o1])
          = Some d2)"
  by (auto simp: runPage_last failures_def)

theorem last_arrival_is_displayed_witness:
  "locations
     (runPage initialPageState
        [Issue 1, Issue 2, Settle 1 (Success resultAB), Settle 2 (Success resultAC)])
     = Some resultAC
   \<and> HttpFailure \<in> failures
   \<and> locations
       (runPage initialPageState
          [Issue 1, Issue 2, Settle 2 (Success resultAC), Settle 1 HttpFailure])
       = Some resultAC"
  using last_arrival_is_displayed
      [where st = initialPageState and evs = "[]" and ?q1.0 = 1 and ?q2.0 = 2
         and ?o1.0 = "Success resultAB" and ?d2.0 = resultAC]
    last_arrival_is_displayed
      [where st = initialPageState and evs = "[]" and ?q1.0 = 1 and ?q2.0 = 2
         and ?o1.0 = HttpFailure and ?d2.0 = resultAC]
  by (simp add: failures_def)

text \<open>
  C7. A query whose request fails (the transport fails, the response is not a success, or
  its body does not parse) leaves the displayed result as it was, shows an error message
  to the user, and clears the loading flag; so does the settling of a failed request in
  any state of the page.
\<close>

theorem failed_query_keeps_result:
  assumes "outcome \<in> failures"
  shows "locations (handleQuery st outcome) = locations st
    \<and> \<not> loading (handleQuery st outcome)
    \<and> alerts (handleQuery st outcome) =
        alerts st @ [''Error querying locations. Make sure the backend server is running.'']
    \<and> locations (handleQuery_settle st outcome) = locations st
    \<and> \<not> loading (handleQuery_settle st outcome)
    \<and> alerts (handleQuery_settle st outcome) =
        alerts st @ [''Error querying locations. Make sure the backend server is running.'']"
  using assms
  by (auto simp: failures_def handleQuery_def handleQuery_settle_def handleQuery_begin_def)

theorem failed_query_keeps_result_witness:
  "TransportFailure \<in> failures
   \<and> locations (handleQuery (initialPageState\<lparr>locations := Some resultAB\<rparr>) TransportFailure)
       = Some resultAB
   \<and> \<not> loading (handleQuery (initialPageState\<lparr>locations := Some resultAB\<rparr>) TransportFailure)
   \<and> alerts (handleQuery (initialPageState\<lparr>locations := Some resultAB\<rparr>) TransportFailure)
       = [''Error querying locations. Make sure the backend server is running.'']"
proof -
  have h: "TransportFailure \<in> failures" by (simp add: failures_def)
  show ?thesis
    using failed_query_keeps_result[OF h, of "initialPageState\<lparr>locations := Some resultAB\<rparr>"] h
    by (simp add: initialPageState_def)
qed

section \<open>Colour assignment: the pattern, the index and the palette\<close>

lemma isDigit_value: "isDigit c \<Longrightarrow> 0 \<le> digitValue c \<and> digitValue c \<le> 9"
  by (auto simp: isDigit_def digitValue_def)

lemma matchPerson_digits:
  "matchPerson p = Some ds \<Longrightarrow> ds \<noteq> [] \<and> (\<forall>c\<in>set ds. isDigit c)"
proof (induction p)
  case Nil
  then show ?case by simp
next
  case (Cons c cs)
  then show ?case
    by (auto split: if_splits dest: set_takeWhileD)
qed

lemma matchPerson_nonempty: "matchPerson p = Some ds \<Longrightarrow> p \<noteq> []"
  by (cases p) simp_all


lemma palette_index:
  assumes "1 \<le> n"
  shows "arrayIndex colors (jsRemainder (n - 1) (int (length colors)))
           = Some (colors ! nat ((n - 1) mod 10))"
proof -
  have len: "length colors = 10" by (simp add: colors_def)
  from assms have "jsRemainder (n - 1) 10 = (n - 1) mod 10"
    by (cases "n = 1") (simp_all add: jsRemainder_def)
  moreover have "0 \<le> (n - 1) mod 10" "(n - 1) mod 10 < 10" by simp_all
  ultimately show ?thesis by (simp add: arrayIndex_def len)
qed

lemma palette_index_zero:
  "arrayIndex colors (jsRemainder (0 - 1) (int (length colors))) = None"
  by (simp add: arrayIndex_def jsRemainder_def colors_def)

lemma palette_member: "nat (k mod 10) < length colors"
  by (simp add: colors_def nat_less_iff)

lemma getPersonColor_matched:
  assumes "matchPerson p = Some ds"
  shows "getPersonColor (Some p) =
           arrayIndex colors (jsRemainder (parseInt ds - 1) (int (length colors)))"
  using assms matchPerson_nonempty[OF assms] by (simp add: getPersonColor_def)

lemma getPersonColor_unmatched:
  assumes "p \<noteq> []" "matchPerson p = None"
  shows "getPersonColor (Some p) = Some (colors ! 0)"
  using assms by (simp add: getPersonColor_def arrayIndex_def jsRemainder_def colors_def)





text \<open>
  A person called \<^verbatim>\<open>constructor\<close> and a table without an entry of that name: the read of
  the table finds the inherited property, which is returned in place of a colour.
\<close>

lemma color_of_inherited_name:
  "overrideColor (Some overrideResult) ''constructor'' = None
   \<and> getPersonColorFromResponse (Some overrideResult) (Some ''constructor'')
       = JsInherited ''constructor''"
  by (simp add: getPersonColorFromResponse_def overrideColor_def overrideResult_def
      responseOf_def property_def objectPrototypeNames_def)



text \<open>
  C10. For the id \<^verbatim>\<open>person0\<close> the index is \<open>0 - 1\<close>, the remainder by 10 of \<open>-1\<close> is \<open>-1\<close>, and
  the palette read there is undefined: \<open>getPersonColor\<close> returns neither a palette colour
  nor the gray. Any id whose suffix parses to 0 gives undefined; a colour of the palette
  comes out for a suffix of at least 1 (within the exactly represented integers) and for
  an id with no suffix.
\<close>

theorem person0_color_undefined:
  "getPersonColor (Some ''person0'') = None
   \<and> jsRemainder (0 - 1) (int (length colors)) = - 1
   \<and> arrayIndex colors (- 1) = None
   \<and> (matchPerson p = Some ds \<and> parseInt ds = 0 \<longrightarrow> getPersonColor (Some p) = None)
   \<and> (matchPerson p = Some ds \<and> 1 \<le> parseInt ds \<and> parseInt ds \<le> 2 ^ 53 \<longrightarrow>
        getPersonColor (Some p) \<in> Some ` set colors)
   \<and> (q \<noteq> [] \<and> matchPerson q = None \<longrightarrow> getPersonColor (Some q) \<in> Some ` set colors)"
proof -
  have p0: "getPersonColor (Some ''person0'') = None"
    by (simp add: getPersonColor_def isDigit_def parseInt_def digitValue_def arrayIndex_def
        jsRemainder_def colors_def)
  have rem: "jsRemainder (0 - 1) (int (length colors)) = - 1"
    by (simp add: jsRemainder_def colors_def)
  have arr: "arrayIndex colors (- 1) = None" by (simp add: arrayIndex_def)
  have zero: "matchPerson p = Some ds \<and> parseInt ds = 0 \<longrightarrow> getPersonColor (Some p) = None"
    using palette_index_zero by (auto simp: getPersonColor_matched)
  have pos: "matchPerson p = Some ds \<and> 1 \<le> parseInt ds \<and> parseInt ds \<le> 2 ^ 53 \<longrightarrow>
      getPersonColor (Some p) \<in> Some ` set colors"
    using palette_member[of "parseInt ds - 1"]
    by (auto simp: getPersonColor_matched palette_index simp del: length_greater_0_conv)
  have none: "q \<noteq> [] \<and> matchPerson q = None \<longrightarrow> getPersonColor (Some q) \<in> Some ` set colors"
    using palette_member[of 0] by (auto simp: getPersonColor_unmatched)
  from p0 rem arr zero pos none show ?thesis by blast
qed

theorem person0_color_undefined_witness:
  "matchPerson ''person000'' = Some ''000'' \<and> parseInt ''000'' = 0
   \<and> getPersonColor (Some ''person000'') = None
   \<and> matchPerson ''person10'' = Some ''10'' \<and> 1 \<le> parseInt ''10''
   \<and> getPersonColor (Some ''person10'') \<in> Some ` set colors
   \<and> matchPerson ''bob'' = None
   \<and> getPersonColor (Some ''bob'') \<in> Some ` set colors"
proof -
  have m0: "matchPerson ''person000'' = Some ''000'' \<and> parseInt ''000'' = 0"
    by (simp add: isDigit_def parseInt_def digitValue_def)
  have m10: "matchPerson ''person10'' = Some ''10'' \<and> 1 \<le> parseInt ''10''
      \<and> parseInt ''10'' \<le> 2 ^ 53"
    by (simp add: isDigit_def parseInt_def digitValue_def)
  have mb: "''bob'' \<noteq> [] \<and> matchPerson ''bob'' = None" by simp
  have a: "getPersonColor (Some ''person000'') = None"
    using person0_color_undefined[of "''person000''" "''000''"] m0 by blast
  have b: "getPersonColor (Some ''person10'') \<in> Some ` set colors"
    using person0_color_undefined[of "''person10''" "''10''"] m10 by blast
  have c: "getPersonColor (Some ''bob'') \<in> Some ` set colors"
    using person0_color_undefined[of _ _ "''bob''"] mb by blast
  from a b c m0 m10 mb show ?thesis by blast
qed

section \<open>Map viewport\<close>

lemma mathMin_fold: "mathMin x xs = fold min xs x"
  by (induction xs arbitrary: x) (simp_all add: min.commute)

lemma mathMax_fold: "mathMax x xs = fold max xs x"
  by (induction xs arbitrary: x) (simp_all add: max.commute)

lemma mathMin_Min: "mathMin x xs = Min (set (x # xs))"
  by (simp only: mathMin_fold Min.set_eq_fold)

lemma mathMax_Max: "mathMax x xs = Max (set (x # xs))"
  by (simp only: mathMax_fold Max.set_eq_fold)

lemma bounds_many:
  assumes "2 \<le> length (r_locations res)"
  shows "getMapBounds (Some res) =
    (((Min (latitude ` set (r_locations res)) + Max (latitude ` set (r_locations res))) / 2,
      (Min (longitude ` set (r_locations res)) + Max (longitude ` set (r_locations res))) / 2),
     14)"
proof -
  from assms obtain a b ls where ls: "r_locations res = a # b # ls"
    by (cases "r_locations res"; cases "tl (r_locations res)") auto
  show ?thesis
    by (simp add: getMapBounds_def ls mathMin_Min mathMax_Max image_image
          del: Min_insert Max_insert set_simps)
       (simp add: comp_def)
qed

text \<open>
  C9. The viewport suggested for a result: with no result or no location the default
  centre (32.0853, 34.7818) at zoom 13; with exactly one location its coordinate at the
  tighter zoom 15; with two or more locations the midpoint of the least and the greatest
  latitude and of the least and the greatest longitude, at zoom 14.
\<close>

theorem getMapBounds_cases:
  "getMapBounds None = ((32.0853, 34.7818), 13)
   \<and> (r_locations res = [] \<longrightarrow> getMapBounds (Some res) = ((32.0853, 34.7818), 13))
   \<and> (r_locations res = [l] \<longrightarrow> getMapBounds (Some res) = ((latitude l, longitude l), 15))
   \<and> (2 \<le> length (r_locations res) \<longrightarrow>
        getMapBounds (Some res) =
          (((Min (latitude ` set (r_locations res)) + Max (latitude ` set (r_locations res))) / 2,
            (Min (longitude ` set (r_locations res)) + Max (longitude ` set (r_locations res))) / 2),
           14))"
  using bounds_many[of res]
  by (simp add: getMapBounds_def defaultCenter_def defaultZoom_def)

theorem getMapBounds_cases_witness:
  "getMapBounds (Some (responseOf [])) = ((32.0853, 34.7818), 13)
   \<and> getMapBounds (Some (responseOf [sampleAt ''person1'' ''2024-01-01T08:00:00'' 32 34.7]))
       = ((32, 34.7), 15)
   \<and> 2 \<le> length (r_locations (responseOf hubSamples))
   \<and> getMapBounds (Some (responseOf hubSamples)) = ((1.5, 0), 14)"
proof -
  have e: "r_locations (responseOf []) = []" by (simp add: responseOf_def)
  have o: "r_locations (responseOf [sampleAt ''person1'' ''2024-01-01T08:00:00'' 32 34.7])
      = [sampleAt ''person1'' ''2024-01-01T08:00:00'' 32 34.7]"
    by (simp add: responseOf_def)
  have m: "2 \<le> length (r_locations (responseOf hubSamples))"
    by (simp add: responseOf_def hubSamples_def)
  have v: "latitude ` set (r_locations (responseOf hubSamples)) = {3, 0}
      \<and> longitude ` set (r_locations (responseOf hubSamples)) = {0, - 2, 2}"
    by (auto simp: responseOf_def hubSamples_def sampleAt_def)
  have a: "getMapBounds (Some (responseOf [])) = ((32.0853, 34.7818), 13)"
    using getMapBounds_cases[of "responseOf []"] e by blast
  have b: "getMapBounds (Some (responseOf [sampleAt ''person1'' ''2024-01-01T08:00:00'' 32 34.7]))
      = ((32, 34.7), 15)"
    using getMapBounds_cases[of "responseOf [sampleAt ''person1'' ''2024-01-01T08:00:00'' 32 34.7]"
        "sampleAt ''person1'' ''2024-01-01T08:00:00'' 32 34.7"] o
    by (simp add: sampleAt_def)
  have c: "getMapBounds (Some (responseOf hubSamples)) = ((1.5, 0), 14)"
    using getMapBounds_cases[of "responseOf hubSamples"] m by (simp add: v)
  from a b c m show ?thesis by blast
qed

end
